theory Spec2Isabelle
  imports Complex_Main "HOL-Library.Log_Nat"
begin

section \<open>Event-sample extraction of summarize\_pitching\_db.py\<close>

text \<open>
  The functions \<open>time_to_frame\<close>, \<open>get_value_at_frame\<close>, \<open>get_max_value\<close> and the
  per-row body of the loop in \<open>summarize_database\<close> are embedded below.

  Numbers: a cell that holds a finite Python float is the rational it denotes; a cell for
  which \<open>pd.isna\<close> holds (\<open>None\<close>, NaN, an SQL NULL) is \<open>None\<close>. Infinite cells are
  not modelled. Comparisons, \<open>abs\<close> and \<open>max\<close> are exact on floats. The arithmetic of
  \<open>time_to_frame\<close> is IEEE double arithmetic: each operation returns the exact result
  rounded to the nearest double, a tie to the even significand, a result beyond the largest
  double to an infinity; the sign of a zero is not kept. Frame counts are Python integers,
  hence \<open>int\<close>; a frame count that is NaN is treated where the loop body reads it.

  Exceptions: every Python operation of these functions that can raise (float division,
  the conversion of an integer to a float, \<open>round\<close>, \<open>range\<close>, indexing a Series by
  label, \<open>max\<close> of a list, \<open>list.index\<close>, indexing a list) has its raise in the model,
  and the functions return \<open>error + 'a\<close>.
\<close>

subsection \<open>Python floats\<close>

datatype error =
  ZeroDivisionError | KeyError | ValueError | IndexError | OverflowError | TypeError

datatype pyfloat = Finite rat | PInf | NInf | NaN

text \<open>To the nearest integer, a half to the even neighbour.\<close>

definition round_half_even :: "rat \<Rightarrow> int" where
  "round_half_even x =
     (let f = \<lfloor>x\<rfloor>; d = x - of_int f
      in if d < 1 / 2 then f
         else if 1 / 2 < d then f + 1
         else if even f then f else f + 1)"

text \<open>
  The binary exponent of a non-zero rational, \<open>\<lfloor>log\<^sub>2 \<bar>x\<bar>\<rfloor>\<close>, from the bit lengths of
  its numerator and denominator; the spacing of the doubles around it (53 significant bits,
  least normal exponent -1022); and rounding to a double.
\<close>

definition exponent :: "rat \<Rightarrow> int" where
  "exponent x =
     (case quotient_of \<bar>x\<bar> of (p, q) \<Rightarrow>
        let d = bitlen p - bitlen q
        in if 2 powi d \<le> \<bar>x\<bar> then d else d - 1)"

definition ulp :: "rat \<Rightarrow> rat" where
  "ulp x = 2 powi (max (exponent x) (- 1022) - 52)"

definition fl_round :: "rat \<Rightarrow> pyfloat" where
  "fl_round x =
     (if x = 0 then Finite 0
      else let y = of_int (round_half_even (x / ulp x)) * ulp x
           in if 2 ^ 1024 \<le> \<bar>y\<bar> then (if 0 < y then PInf else NInf) else Finite y)"


text \<open>\<open>-a\<close>, \<open>a + b\<close>, \<open>a - b\<close>, \<open>a * b\<close> on floats.\<close>

fun fneg :: "pyfloat \<Rightarrow> pyfloat" where
  "fneg (Finite x) = Finite (- x)"
| "fneg PInf = NInf"
| "fneg NInf = PInf"
| "fneg NaN = NaN"

fun fadd :: "pyfloat \<Rightarrow> pyfloat \<Rightarrow> pyfloat" where
  "fadd NaN b = NaN"
| "fadd a NaN = NaN"
| "fadd PInf NInf = NaN"
| "fadd NInf PInf = NaN"
| "fadd PInf b = PInf"
| "fadd a PInf = PInf"
| "fadd NInf b = NInf"
| "fadd a NInf = NInf"
| "fadd (Finite x) (Finite y) = fl_round (x + y)"

definition fsub :: "pyfloat \<Rightarrow> pyfloat \<Rightarrow> pyfloat" where
  "fsub a b = fadd a (fneg b)"

fun fmul :: "pyfloat \<Rightarrow> pyfloat \<Rightarrow> pyfloat" where
  "fmul NaN b = NaN"
| "fmul a NaN = NaN"
| "fmul (Finite x) (Finite y) = fl_round (x * y)"
| "fmul (Finite x) PInf = (if x = 0 then NaN else if 0 < x then PInf else NInf)"
| "fmul (Finite x) NInf = (if x = 0 then NaN else if 0 < x then NInf else PInf)"
| "fmul PInf (Finite y) = (if y = 0 then NaN else if 0 < y then PInf else NInf)"
| "fmul NInf (Finite y) = (if y = 0 then NaN else if 0 < y then NInf else PInf)"
| "fmul PInf PInf = PInf"
| "fmul PInf NInf = NInf"
| "fmul NInf PInf = NInf"
| "fmul NInf NInf = PInf"

text \<open>\<open>a / b\<close> on floats: \<open>ZeroDivisionError\<close> when the divisor is zero, whatever \<open>a\<close> is.\<close>

fun fdiv :: "pyfloat \<Rightarrow> pyfloat \<Rightarrow> error + pyfloat" where
  "fdiv a (Finite y) =
     (if y = 0 then Inl ZeroDivisionError
      else (case a of
              Finite x \<Rightarrow> Inr (fl_round (x / y))
            | PInf \<Rightarrow> Inr (if 0 < y then PInf else NInf)
            | NInf \<Rightarrow> Inr (if 0 < y then NInf else PInf)
            | NaN \<Rightarrow> Inr NaN))"
| "fdiv a NaN = Inr NaN"
| "fdiv (Finite x) b = Inr (Finite 0)"
| "fdiv a b = Inr NaN"

text \<open>
  The conversion of an integer operand in \<open>float * int\<close>: rounded to the nearest double,
  \<open>OverflowError\<close> when the integer is too large for a float.
\<close>

definition float_of_int :: "int \<Rightarrow> error + pyfloat" where
  "float_of_int k =
     (case fl_round (of_int k) of Finite x \<Rightarrow> Inr (Finite x) | _ \<Rightarrow> Inl OverflowError)"

text \<open>
  \<open>round(x)\<close> of Python 3 on a float: the nearest integer, a half to the even neighbour;
  \<open>ValueError\<close> on NaN and \<open>OverflowError\<close> on an infinity.
\<close>

fun py_round :: "pyfloat \<Rightarrow> error + int" where
  "py_round (Finite x) = Inr (round_half_even x)"
| "py_round NaN = Inl ValueError"
| "py_round a = Inl OverflowError"

subsection \<open>Python lists\<close>

text \<open>\<open>max(xs)\<close> on a list: \<open>ValueError\<close> on the empty list.\<close>

fun py_max :: "rat list \<Rightarrow> error + rat" where
  "py_max [] = Inl ValueError"
| "py_max (x # xs) = Inr (fold max xs x)"

text \<open>\<open>xs.index(x)\<close>: the position of the first occurrence, \<open>ValueError\<close> if there is none.\<close>

fun py_index :: "rat list \<Rightarrow> rat \<Rightarrow> error + nat" where
  "py_index [] x = Inl ValueError"
| "py_index (y # ys) x =
     (if y = x then Inr 0
      else (case py_index ys x of Inl e \<Rightarrow> Inl e | Inr i \<Rightarrow> Inr (Suc i)))"

text \<open>\<open>xs[i]\<close> on a list with a non-negative index.\<close>

definition py_getitem :: "rat list \<Rightarrow> nat \<Rightarrow> error + rat" where
  "py_getitem xs i = (if i < length xs then Inr (xs ! i) else Inl IndexError)"

subsection \<open>Rows\<close>

text \<open>
  The value of \<open>frames\<close> after lines 191 to 198: an integer (a present cell, converted by
  \<open>int\<close>), NaN (an SQL NULL in a numeric column: \<open>pd.notna\<close> fails and the NaN is kept),
  or \<open>None\<close> (no such column, a \<open>None\<close> cell, or a failed conversion).
\<close>

datatype frames_cell = FramesInt int | FramesNaN | FramesNone

text \<open>
  A row of the input table (a pandas Series). \<open>num_col row c\<close> is \<open>row.get(c)\<close> for the
  float-valued columns \<open>time_start\<close>, \<open>time_end\<close> and the event-time columns: \<open>None\<close>
  when the column is absent or its cell is NULL. \<open>frames_col\<close> is the frame count as
  above. \<open>value_cols row i\<close> is the column named \<open>value_i\<close>: \<open>None\<close> when the row has no
  such column, \<open>Some None\<close> when its cell is NULL, \<open>Some (Some x)\<close> when it holds \<open>x\<close>.
\<close>

record row =
  num_col :: "string \<Rightarrow> rat option"
  frames_col :: frames_cell
  value_cols :: "int \<rightharpoonup> rat option"

text \<open>\<open>value_col in row.index\<close> and \<open>row[value_col]\<close> for \<open>value_col = f"value_{i}"\<close>.\<close>

definition in_index :: "row \<Rightarrow> int \<Rightarrow> bool" where
  "in_index r i = (value_cols r i \<noteq> None)"

definition row_getitem :: "row \<Rightarrow> int \<Rightarrow> error + rat option" where
  "row_getitem r i = (case value_cols r i of None \<Rightarrow> Inl KeyError | Some val \<Rightarrow> Inr val)"

text \<open>
  The row whose value columns \<open>value_1 .. value_n\<close> hold the given samples (\<open>None\<close> a NULL
  cell), with the given window, the given integer frame count (\<open>None\<close>: no \<open>frames\<close>
  column) and the given event-time columns.
\<close>

definition mk_row ::
  "rat option \<Rightarrow> rat option \<Rightarrow> int option \<Rightarrow> (string \<times> rat) list \<Rightarrow> rat option list \<Rightarrow> row" where
  "mk_row ts te fr evs samples =
     \<lparr> num_col = (\<lambda>c. if c = ''time_start'' then ts
                      else if c = ''time_end'' then te
                      else map_of evs c),
       frames_col = (case fr of Some n \<Rightarrow> FramesInt n | None \<Rightarrow> FramesNone),
       value_cols = (\<lambda>i. if 1 \<le> i \<and> i \<le> int (length samples)
                          then Some (samples ! nat (i - 1)) else None) \<rparr>"

subsection \<open>time\_to\_frame\<close>

text \<open>
  Lines 42 and 43, \<open>int(round(1 + (event_time - time_start) / (time_end - time_start) *
  (frames - 1)))\<close>, in the order Python evaluates them.
\<close>

definition interpolate :: "rat \<Rightarrow> rat \<Rightarrow> rat \<Rightarrow> int \<Rightarrow> error + int" where
  "interpolate t s e frames =
     (case fdiv (fsub (Finite t) (Finite s)) (fsub (Finite e) (Finite s)) of
        Inl err \<Rightarrow> Inl err
      | Inr q \<Rightarrow>
          (case float_of_int (frames - 1) of
             Inl err \<Rightarrow> Inl err
           | Inr c \<Rightarrow> py_round (fadd (Finite 1) (fmul q c))))"

definition time_to_frame ::
  "rat option \<Rightarrow> rat option \<Rightarrow> rat option \<Rightarrow> int \<Rightarrow> error + int option" where
  "time_to_frame event_time time_start time_end frames =
     (case event_time of None \<Rightarrow> Inr None | Some t \<Rightarrow>
      (case time_start of None \<Rightarrow> Inr None | Some s \<Rightarrow>
       (case time_end of None \<Rightarrow> Inr None | Some e \<Rightarrow>
          if frames \<le> 1 then Inr None
          else if t < s then Inr (Some 1)
          else if e < t then Inr (Some frames)
          else if e = s then Inr (Some 1)
          else (case interpolate t s e frames of
                  Inl err \<Rightarrow> Inl err
                | Inr frame \<Rightarrow> Inr (Some (max 1 (min frame frames)))))))"

subsection \<open>get\_value\_at\_frame\<close>

definition get_value_at_frame :: "row \<Rightarrow> int option \<Rightarrow> error + rat option" where
  "get_value_at_frame r frame_num =
     (case frame_num of None \<Rightarrow> Inr None | Some n \<Rightarrow>
        if n < 1 then Inr None
        else if in_index r n
             then (case row_getitem r n of Inl err \<Rightarrow> Inl err | Inr val \<Rightarrow> Inr val)
             else Inr None)"

subsection \<open>get\_max\_value\<close>

text \<open>
  The loop \<open>for i in range(1, frames + 1)\<close>, run over the list of its indices with the
  list \<open>values\<close> built so far.
\<close>

fun collect_values :: "row \<Rightarrow> int list \<Rightarrow> rat list \<Rightarrow> error + rat list" where
  "collect_values r [] values = Inr values"
| "collect_values r (i # is) values =
     (if in_index r i
      then (case row_getitem r i of
              Inl err \<Rightarrow> Inl err
            | Inr None \<Rightarrow> collect_values r is values
            | Inr (Some v) \<Rightarrow> collect_values r is (values @ [v]))
      else collect_values r is values)"

definition get_max_value :: "row \<Rightarrow> int option \<Rightarrow> error + rat option" where
  "get_max_value r frames =
     (case frames of None \<Rightarrow> Inr None | Some n \<Rightarrow>
        if n < 1 then Inr None
        else (case collect_values r [1..n] [] of
                Inl err \<Rightarrow> Inl err
              | Inr values \<Rightarrow>
                  if values = [] then Inr None
                  else (let abs_values = map abs values
                        in case py_max abs_values of
                             Inl err \<Rightarrow> Inl err
                           | Inr m \<Rightarrow>
                               (case py_index abs_values m of
                                  Inl err \<Rightarrow> Inl err
                                | Inr max_abs_idx \<Rightarrow>
                                    (case py_getitem values max_abs_idx of
                                       Inl err \<Rightarrow> Inl err
                                     | Inr v \<Rightarrow> Inr (Some v))))))"

subsection \<open>The three functions at a frame count that is NaN\<close>

text \<open>
  Python runs the same three functions when \<open>frames\<close> is the float NaN. Every comparison
  with NaN is false, so \<open>frames <= 1\<close> and \<open>frames < 1\<close> do not hold; \<open>return frames\<close>
  returns the NaN; \<open>frames - 1\<close> is NaN, and so is the float handed to \<open>round\<close>;
  \<open>min(frame, frames)\<close> would be \<open>frame\<close>. A frame number is then an integer or NaN.
\<close>

datatype frame_num = FrameInt int | FrameNaN

definition time_to_frame_nan ::
  "rat option \<Rightarrow> rat option \<Rightarrow> rat option \<Rightarrow> error + frame_num option" where
  "time_to_frame_nan event_time time_start time_end =
     (case event_time of None \<Rightarrow> Inr None | Some t \<Rightarrow>
      (case time_start of None \<Rightarrow> Inr None | Some s \<Rightarrow>
       (case time_end of None \<Rightarrow> Inr None | Some e \<Rightarrow>
          if t < s then Inr (Some (FrameInt 1))
          else if e < t then Inr (Some FrameNaN)
          else if e = s then Inr (Some (FrameInt 1))
          else (case fdiv (fsub (Finite t) (Finite s)) (fsub (Finite e) (Finite s)) of
                  Inl err \<Rightarrow> Inl err
                | Inr q \<Rightarrow>
                    (case py_round (fadd (Finite 1) (fmul q (fsub NaN (Finite 1)))) of
                       Inl err \<Rightarrow> Inl err
                     | Inr frame \<Rightarrow> Inr (Some (FrameInt (max 1 frame))))))))"

text \<open>
  \<open>get_value_at_frame\<close> at a frame number that may be NaN: \<open>frame_num < 1\<close> is false for
  NaN and the row has no column \<open>value_nan\<close>.
\<close>

definition get_value_at_frame_num :: "row \<Rightarrow> frame_num option \<Rightarrow> error + rat option" where
  "get_value_at_frame_num r frame_num =
     (case frame_num of
        None \<Rightarrow> Inr None
      | Some (FrameInt n) \<Rightarrow> get_value_at_frame r (Some n)
      | Some FrameNaN \<Rightarrow> Inr None)"

text \<open>
  \<open>get_max_value\<close> at the frame count of a row: for NaN, \<open>frames is None or frames < 1\<close>
  is false and \<open>range(1, frames + 1)\<close> raises \<open>TypeError\<close>, a float not being an integer.
\<close>

definition get_max_value_cell :: "row \<Rightarrow> frames_cell \<Rightarrow> error + rat option" where
  "get_max_value_cell r frames =
     (case frames of
        FramesInt n \<Rightarrow> get_max_value r (Some n)
      | FramesNaN \<Rightarrow> Inl TypeError
      | FramesNone \<Rightarrow> get_max_value r None)"

subsection \<open>The per-row body of summarize\_database\<close>

text \<open>
  Lines 188 to 219: the output row \<open>new_row\<close> is a map from column name to value; the
  metadata columns copied into it at the start are not modelled. \<open>truthy\<close> is Python's
  truth value of \<open>frames\<close>: an integer other than 0, or NaN.
\<close>

type_synonym new_row = "string \<rightharpoonup> rat option"

definition truthy :: "frames_cell \<Rightarrow> bool" where
  "truthy frames = (case frames of FramesInt n \<Rightarrow> n \<noteq> 0 | FramesNaN \<Rightarrow> True | FramesNone \<Rightarrow> False)"

text \<open>
  Lines 202 to 212, the value stored for one event: the guard of the \<open>if\<close> and its two
  branches.
\<close>

definition event_value :: "row \<Rightarrow> string \<Rightarrow> error + rat option" where
  "event_value r event_col =
     (let event_time = num_col r event_col;
          time_start = num_col r ''time_start'';
          time_end = num_col r ''time_end''
      in if event_time \<noteq> None \<and> time_start \<noteq> None \<and> time_end \<noteq> None \<and> truthy (frames_col r)
         then (case frames_col r of
                 FramesInt frames \<Rightarrow>
                   (case time_to_frame event_time time_start time_end frames of
                      Inl err \<Rightarrow> Inl err
                    | Inr frame_num \<Rightarrow> get_value_at_frame r frame_num)
               | FramesNaN \<Rightarrow>
                   (case time_to_frame_nan event_time time_start time_end of
                      Inl err \<Rightarrow> Inl err
                    | Inr frame_num \<Rightarrow> get_value_at_frame_num r frame_num)
               | FramesNone \<Rightarrow> Inr None)
         else Inr None)"

text \<open>The loop over \<open>available_events.items()\<close>, threading \<open>new_row\<close>.\<close>

fun process_events :: "row \<Rightarrow> (string \<times> string) list \<Rightarrow> new_row \<Rightarrow> error + new_row" where
  "process_events r [] new_row = Inr new_row"
| "process_events r ((event_name, event_col) # rest) new_row =
     (case event_value r event_col of
        Inl err \<Rightarrow> Inl err
      | Inr val \<Rightarrow> process_events r rest (new_row((''@'' @ event_name) \<mapsto> val)))"

definition extract_event_samples :: "row \<Rightarrow> (string \<times> string) list \<Rightarrow> error + new_row" where
  "extract_event_samples r available_events =
     (case process_events r available_events Map.empty of
        Inl err \<Rightarrow> Inl err
      | Inr new_row \<Rightarrow>
          if truthy (frames_col r)
          then (case get_max_value_cell r (frames_col r) of
                  Inl err \<Rightarrow> Inl err
                | Inr max_value \<Rightarrow> Inr (new_row(''@max'' \<mapsto> max_value)))
          else Inr (new_row(''@max'' \<mapsto> None)))"

subsection \<open>Auxiliary notions for the proofs\<close>

text \<open>
  Whether the column \<open>value_i\<close> of a row holds a number, and that number. They name what
  the loop of \<open>get_max_value\<close> keeps; the properties below are stated on \<open>value_cols\<close>.
\<close>

definition is_present :: "row \<Rightarrow> int \<Rightarrow> bool" where
  "is_present r i = (case value_cols r i of Some (Some v) \<Rightarrow> True | _ \<Rightarrow> False)"

definition sample_at :: "row \<Rightarrow> int \<Rightarrow> rat" where
  "sample_at r i = (case value_cols r i of Some (Some v) \<Rightarrow> v | _ \<Rightarrow> 0)"

section \<open>Rounding to a double\<close>

lemma round_half_even_of_int: "round_half_even (of_int n) = n"
  by (simp add: round_half_even_def)

lemma bitlen_powi:
  assumes "0 < p"
  shows "(2::rat) powi (bitlen p - 1) \<le> of_int p" and "of_int p < (2::rat) powi bitlen p"
proof -
  have b1: "1 \<le> bitlen p"
    using assms bitlen_eq_zero_iff [of p] bitlen_nonneg [of p] by linarith
  from bitlen_bounds [OF assms]
  have lo: "2 ^ nat (bitlen p - 1) \<le> p" and hi: "p < 2 ^ nat (bitlen p)" by simp_all
  have "(of_int (2 ^ nat (bitlen p - 1)) :: rat) \<le> of_int p"
    using lo by (simp only: of_int_le_iff)
  then show "(2::rat) powi (bitlen p - 1) \<le> of_int p"
    using b1 by (simp add: power_int_def)
  have "(of_int p :: rat) < of_int (2 ^ nat (bitlen p))"
    using hi by (simp only: of_int_less_iff)
  then show "of_int p < (2::rat) powi bitlen p"
    using b1 by (simp add: power_int_def)
qed

lemma exponent_bounds:
  assumes "x \<noteq> 0"
  shows "2 powi exponent x \<le> \<bar>x\<bar>" and "\<bar>x\<bar> < 2 powi (exponent x + 1)"
proof -
  obtain p q where pq: "quotient_of \<bar>x\<bar> = (p, q)" by (cases "quotient_of \<bar>x\<bar>")
  have q: "0 < q" using pq by (rule quotient_of_denom_pos)
  have ax: "\<bar>x\<bar> = of_int p / of_int q" using pq by (rule quotient_of_div)
  have pos: "0 < \<bar>x\<bar>" using assms by simp
  have p: "0 < p"
  proof (rule ccontr)
    assume "\<not> 0 < p"
    then have "(of_int p :: rat) \<le> 0" by simp
    then have "of_int p / (of_int q :: rat) \<le> 0" using q by (simp add: divide_le_0_iff)
    with pos ax show False by simp
  qed
  define d where "d = bitlen p - bitlen q"
  have ex: "exponent x = (if 2 powi d \<le> \<bar>x\<bar> then d else d - 1)"
    by (simp add: exponent_def pq d_def Let_def)
  have qpos: "(0::rat) < of_int q" using q by simp
  have up: "\<bar>x\<bar> < 2 powi (d + 1)"
  proof -
    have "of_int p < (2::rat) powi bitlen p" using p by (rule bitlen_powi)
    moreover have "(2::rat) powi (bitlen q - 1) \<le> of_int q" using q by (rule bitlen_powi)
    ultimately have "of_int p * (2::rat) powi (bitlen q - 1) < 2 powi bitlen p * of_int q"
      using p by (intro mult_less_le_imp_less) (simp_all add: qpos)
    then have "of_int p / of_int q < (2::rat) powi bitlen p / 2 powi (bitlen q - 1)"
      using qpos by (simp add: divide_simps)
    also have "(2::rat) powi bitlen p / 2 powi (bitlen q - 1) = 2 powi (d + 1)"
      by (simp add: d_def power_int_diff [symmetric] algebra_simps)
    finally show ?thesis by (simp add: ax)
  qed
  have lo: "2 powi (d - 1) \<le> \<bar>x\<bar>"
  proof -
    have "(2::rat) powi (bitlen p - 1) \<le> of_int p" using p by (rule bitlen_powi)
    moreover have "of_int q < (2::rat) powi bitlen q" using q by (rule bitlen_powi)
    ultimately have "(2::rat) powi (bitlen p - 1) * of_int q \<le> of_int p * 2 powi bitlen q"
      using p q by (intro mult_mono) (simp_all add: less_imp_le)
    then have "(2::rat) powi (bitlen p - 1) / 2 powi bitlen q \<le> of_int p / of_int q"
      using qpos by (simp add: divide_simps)
    moreover have "(2::rat) powi (bitlen p - 1) / 2 powi bitlen q = 2 powi (d - 1)"
      by (simp add: d_def power_int_diff [symmetric] algebra_simps)
    ultimately show ?thesis by (simp add: ax)
  qed
  show "2 powi exponent x \<le> \<bar>x\<bar>" using lo by (simp add: ex)
  show "\<bar>x\<bar> < 2 powi (exponent x + 1)"
    using up by (simp add: ex not_le)
qed

lemma exponent_unique:
  assumes "2 powi k \<le> \<bar>x\<bar>" and "\<bar>x\<bar> < 2 powi (k + 1)"
  shows "exponent x = k"
proof -
  have "\<not> (2::rat) powi k \<le> 0" by (simp add: not_le)
  with assms(1) have nz: "x \<noteq> 0" by auto
  note b = exponent_bounds [OF nz]
  have "\<not> exponent x < k"
  proof
    assume "exponent x < k"
    then have "(2::rat) powi (exponent x + 1) \<le> 2 powi k"
      by (intro power_int_increasing) simp_all
    with b(2) assms(1) show False by simp
  qed
  moreover have "\<not> k < exponent x"
  proof
    assume "k < exponent x"
    then have "(2::rat) powi (k + 1) \<le> 2 powi exponent x"
      by (intro power_int_increasing) simp_all
    with b(1) assms(2) show False by simp
  qed
  ultimately show ?thesis by simp
qed

lemma fl_round_known:
  assumes "2 powi k \<le> \<bar>x\<bar>" and "\<bar>x\<bar> < 2 powi (k + 1)"
  shows "fl_round x =
           (let u = 2 powi (max k (- 1022) - 52);
                y = of_int (round_half_even (x / u)) * u
            in if 2 ^ 1024 \<le> \<bar>y\<bar> then (if 0 < y then PInf else NInf) else Finite y)"
proof -
  have "\<not> (2::rat) powi k \<le> 0" by (simp add: not_le)
  with assms(1) have nz: "x \<noteq> 0" by auto
  show ?thesis
    by (simp add: fl_round_def nz ulp_def exponent_unique [OF assms] Let_def)
qed

lemma fl_round_exact:
  assumes m: "\<bar>m\<bar> \<le> 2 ^ 53" and j: "- 1074 \<le> j"
    and fin: "\<bar>of_int m * (2::rat) powi j\<bar> < 2 ^ 1024"
  shows "fl_round (of_int m * 2 powi j) = Finite (of_int m * 2 powi j)"
proof (cases "m = 0")
  case True
  then show ?thesis by (simp add: fl_round_def)
next
  case False
  define x :: rat where "x = of_int m * 2 powi j"
  have nz: "x \<noteq> 0" using False by (simp add: x_def)
  define ex where "ex = exponent x"
  define e' where "e' = max ex (- 1022) - 52"
  note b = exponent_bounds [OF nz, folded ex_def]
  have absx: "\<bar>x\<bar> = of_int \<bar>m\<bar> * 2 powi j" by (simp add: x_def abs_mult)
  have exle: "ex \<le> 53 + j"
  proof (rule ccontr)
    assume "\<not> ex \<le> 53 + j"
    then have "(2::rat) powi (53 + j + 1) \<le> 2 powi ex"
      by (intro power_int_increasing) simp_all
    with b(1) have "(2::rat) powi (53 + j + 1) \<le> \<bar>x\<bar>" by simp
    moreover have "\<bar>x\<bar> \<le> 2 ^ 53 * 2 powi j"
    proof -
      have "(of_int \<bar>m\<bar> :: rat) \<le> of_int (2 ^ 53)" using m by (simp only: of_int_le_iff)
      then show ?thesis unfolding absx by (intro mult_right_mono) simp_all
    qed
    moreover have "(2::rat) powi (53 + j + 1) = 2 * (2 ^ 53 * 2 powi j)"
      by (simp add: power_int_add)
    moreover have "(0::rat) < 2 ^ 53 * 2 powi j" by simp
    ultimately show False by linarith
  qed
  have int: "\<exists>n::int. x / 2 powi e' = of_int n"
  proof (cases "e' \<le> j")
    case True
    then have "(2::rat) powi (j - e') = of_int (2 ^ nat (j - e'))"
      by (simp add: power_int_def)
    moreover have "x / 2 powi e' = of_int m * 2 powi (j - e')"
      by (simp add: x_def power_int_diff)
    ultimately have "x / 2 powi e' = of_int (m * 2 ^ nat (j - e'))" by simp
    then show ?thesis by blast
  next
    case False
    then have "e' = ex - 52" and "ex = 53 + j" using j exle by (auto simp: e'_def)
    then have e'j: "e' = j + 1" by simp
    have "(2::rat) powi (53 + j) \<le> of_int \<bar>m\<bar> * 2 powi j"
      using b(1) \<open>ex = 53 + j\<close> absx by simp
    then have "(2::rat) ^ 53 * 2 powi j \<le> of_int \<bar>m\<bar> * 2 powi j"
      by (simp add: power_int_add)
    then have "(2::rat) ^ 53 \<le> of_int \<bar>m\<bar>" by simp
    then have "(of_int (2 ^ 53) :: rat) \<le> of_int \<bar>m\<bar>" by simp
    then have "2 ^ 53 \<le> \<bar>m\<bar>" by (simp only: of_int_le_iff)
    with m have "\<bar>m\<bar> = 2 ^ 53" by simp
    then have "m = 2 * 4503599627370496 \<or> m = 2 * (- 4503599627370496)"
      by (simp add: abs_if split: if_splits)
    then obtain h where h: "m = 2 * h" by blast
    have "x / 2 powi e' = of_int m / 2"
      by (simp add: x_def e'j power_int_add)
    also have "\<dots> = of_int h" by (simp add: h)
    finally show ?thesis by blast
  qed
  then obtain n :: int where n: "x / 2 powi e' = of_int n" ..
  have recon: "of_int n * (2::rat) powi e' = x"
    using n by (simp add: field_simps)
  have "fl_round x = Finite x"
    using fin nz
    by (simp add: fl_round_def ulp_def ex_def [symmetric] e'_def [symmetric] n
          round_half_even_of_int recon Let_def x_def [symmetric] not_le [symmetric])
  then show ?thesis by (simp add: x_def)
qed

lemma fl_round_of_int: "\<bar>k\<bar> \<le> 2 ^ 53 \<Longrightarrow> fl_round (of_int k) = Finite (of_int k)"
proof -
  assume k: "\<bar>k\<bar> \<le> 2 ^ 53"
  have "(of_int \<bar>k\<bar> :: rat) \<le> of_int (2 ^ 53)" using k by (simp only: of_int_le_iff)
  then have "\<bar>of_int k :: rat\<bar> < 2 ^ 1024" by simp
  then show ?thesis using fl_round_exact [of k 0] k by simp
qed


lemma round_half_even_tie: "even n \<Longrightarrow> round_half_even (of_int n + 1 / 2) = n"
proof -
  assume n: "even n"
  have "\<lfloor>of_int n + (1 / 2 :: rat)\<rfloor> = n" by (rule floor_unique) simp_all
  then show ?thesis using n by (simp add: round_half_even_def Let_def)
qed




lemma round_half_even_numeral: "round_half_even (numeral n) = numeral n"
  using round_half_even_of_int [of "numeral n"] by simp

lemma fl_round_overflow: "fl_round (2 ^ 1024) = PInf"
  using fl_round_known [of 1024 "2 ^ 1024"]
  by (simp add: Let_def round_half_even_numeral)


lemma round_half_even_5_2: "round_half_even (5 / 2) = 2"
  using round_half_even_tie [of 2] by simp

lemma fsub_Finite: "fsub (Finite a) (Finite b) = fl_round (a - b)"
  by (simp add: fsub_def)



lemma fl_round_1: "fl_round 1 = Finite 1"
  using fl_round_of_int [of 1] by simp


lemma interpolate_half: "interpolate (1 / 2) 0 1 4 = Inr 2"
proof -
  have h1: "fl_round (1 / 2) = Finite (1 / 2)" using fl_round_exact [of 1 "- 1"] by simp
  have h3: "fl_round (3 / 2) = Finite (3 / 2)" using fl_round_exact [of 3 "- 1"] by simp
  have h5: "fl_round (5 / 2) = Finite (5 / 2)" using fl_round_exact [of 5 "- 1"] by simp
  have i3: "fl_round 3 = Finite 3" using fl_round_of_int [of 3] by simp
  show ?thesis
    by (simp add: interpolate_def fsub_Finite float_of_int_def h1 h3 h5 i3 fl_round_1
          round_half_even_5_2)
qed

lemma interpolate_overflow:
  "interpolate (2 ^ 1023) (- (2 ^ 1023)) (2 ^ 1023) 3 = Inl ValueError"
proof -
  have d: "(2::rat) ^ 1023 - - (2 ^ 1023) = 2 ^ 1024" by simp
  have i2: "fl_round 2 = Finite 2" using fl_round_of_int [of 2] by simp
  show ?thesis
    by (simp only: interpolate_def fsub_Finite d fl_round_overflow fdiv.simps sum.case
          float_of_int_def) (simp add: i2)
qed



lemma interpolate_1_0_1_5: "interpolate 1 0 1 5 = Inr 5"
proof -
  have i4: "fl_round 4 = Finite 4" using fl_round_of_int [of 4] by simp
  have i5: "fl_round 5 = Finite 5" using fl_round_of_int [of 5] by simp
  have r5: "round_half_even 5 = 5" using round_half_even_of_int [of 5] by simp
  show ?thesis
    by (simp add: interpolate_def fsub_Finite float_of_int_def fl_round_1 i4 i5 r5)
qed

section \<open>Properties of time\_to\_frame\<close>

text \<open>
  C7: when the event time, the start or the end of the window is missing, or the frame
  count is at most 1, \<open>time_to_frame\<close> returns \<open>None\<close>, not a frame number.
\<close>

theorem time_to_frame_undefined:
  "event_time = None \<or> time_start = None \<or> time_end = None \<or> frames \<le> 1 \<Longrightarrow>
   time_to_frame event_time time_start time_end frames = Inr None"
  by (auto simp: time_to_frame_def split: option.splits)

theorem time_to_frame_undefined_witness:
  "(Some (2::rat) = None \<or> (None::rat option) = None \<or> Some (3::rat) = None \<or> (7::int) \<le> 1) \<and>
   time_to_frame (Some 2) None (Some 3) 7 = Inr None \<and>
   time_to_frame (Some 2) (Some 1) (Some 3) 1 = Inr None"
  using time_to_frame_undefined [of "Some 2" None "Some 3" 7]
    time_to_frame_undefined [of "Some 2" "Some 1" "Some 3" 1]
  by simp

text \<open>
  C4: whenever \<open>time_to_frame\<close> returns a frame number, that number lies in the closed
  range from 1 to the frame count.
\<close>

theorem time_to_frame_in_range:
  "time_to_frame event_time time_start time_end frames = Inr (Some f) \<Longrightarrow>
   1 \<le> f \<and> f \<le> frames"
  by (auto simp: time_to_frame_def split: option.splits if_splits sum.splits)

theorem time_to_frame_in_range_witness:
  "time_to_frame (Some (1 / 2)) (Some 0) (Some 1) 4 = Inr (Some 2) \<and> (1::int) \<le> 2 \<and> (2::int) \<le> 4"
proof -
  have h: "time_to_frame (Some (1 / 2)) (Some 0) (Some 1) 4 = Inr (Some 2)"
    by (simp add: time_to_frame_def interpolate_half)
  show ?thesis using h time_to_frame_in_range [OF h] by simp
qed

text \<open>
  C2, as stated, fails: with the degenerate window 5.0 to 5.0, three frames and the event
  time 6.0, the result is frame 3, not frame 1, because the test for an event after the end
  of the window comes before the test for a degenerate window.
\<close>

theorem degenerate_window_counterexample:
  "time_to_frame (Some 6) (Some 5) (Some 5) 3 = Inr (Some 3) \<and>
   time_to_frame (Some 6) (Some 5) (Some 5) 3 \<noteq> Inr (Some 1)"
  by (simp add: time_to_frame_def)

text \<open>
  C2, amended: with a degenerate window (start equal to end), nothing missing and more than
  one frame, \<open>time_to_frame\<close> returns frame 1 for every event time up to the end of the
  window and the last frame for every event time after it.
\<close>

theorem degenerate_window:
  "1 < frames \<Longrightarrow>
   time_to_frame (Some t) (Some w) (Some w) frames = Inr (Some (if t \<le> w then 1 else frames))"
  by (simp add: time_to_frame_def)

theorem degenerate_window_witness:
  "(1::int) < 4 \<and> time_to_frame (Some 3) (Some 5) (Some 5) 4 = Inr (Some 1) \<and>
   time_to_frame (Some 5) (Some 5) (Some 5) 4 = Inr (Some 1) \<and>
   time_to_frame (Some 9) (Some 5) (Some 5) 4 = Inr (Some 4)"
  using degenerate_window [of 4 3 5] degenerate_window [of 4 5 5] degenerate_window [of 4 9 5]
  by simp

text \<open>
  C10: on an inverted window (end before start), with nothing missing and more than one
  frame, \<open>time_to_frame\<close> returns a frame and raises nothing: frame 1 when the event
  time is before the start, the last frame otherwise. The division is not reached.
\<close>

theorem inverted_window:
  "e < s \<Longrightarrow> 1 < frames \<Longrightarrow>
   time_to_frame (Some t) (Some s) (Some e) frames = Inr (Some (if t < s then 1 else frames))"
  by (auto simp: time_to_frame_def)

theorem inverted_window_witness:
  "(0::rat) < 10 \<and> (1::int) < 3 \<and>
   time_to_frame (Some 5) (Some 10) (Some 0) 3 = Inr (Some 1) \<and>
   time_to_frame (Some 12) (Some 10) (Some 0) 3 = Inr (Some 3)"
  using inverted_window [of 0 10 3 5] inverted_window [of 0 10 3 12] by simp




section \<open>Properties of get\_max\_value\<close>

lemma is_present_iff: "is_present r i \<longleftrightarrow> (\<exists>v. value_cols r i = Some (Some v))"
  by (auto simp: is_present_def split: option.splits)

lemma sample_at_eq: "value_cols r i = Some (Some v) \<Longrightarrow> sample_at r i = v"
  by (simp add: sample_at_def)

lemma collect_values_eq:
  "collect_values r idxs vals = Inr (vals @ map (sample_at r) (filter (is_present r) idxs))"
proof (induction idxs arbitrary: vals)
  case Nil
  show ?case by simp
next
  case (Cons i idxs)
  show ?case
    by (simp add: Cons.IH in_index_def row_getitem_def is_present_def sample_at_def
          split: option.splits)
qed

lemma py_max_eq: "xs \<noteq> [] \<Longrightarrow> py_max xs = Inr (Max (set xs))"
  by (cases xs) (simp_all flip: Max.set_eq_fold)

lemma py_index_first:
  "x \<in> set xs \<Longrightarrow> \<exists>k<length xs. py_index xs x = Inr k \<and> xs ! k = x \<and> (\<forall>j<k. xs ! j \<noteq> x)"
proof (induction xs)
  case Nil
  then show ?case by simp
next
  case (Cons y ys)
  show ?case
  proof (cases "y = x")
    case True
    then show ?thesis by simp
  next
    case False
    with Cons.prems have "x \<in> set ys" by simp
    from Cons.IH [OF this] obtain k where k: "k < length ys" "py_index ys x = Inr k"
      "ys ! k = x" "\<forall>j<k. ys ! j \<noteq> x" by blast
    have "\<forall>j<Suc k. (y # ys) ! j \<noteq> x"
      using False k(4) by (auto simp: nth_Cons split: nat.splits)
    with False k show ?thesis by auto
  qed
qed

lemma extreme_of_list:
  assumes "vals \<noteq> []"
  shows "\<exists>k<length vals.
           py_index (map abs vals) (Max (set (map abs vals))) = Inr k \<and>
           (\<forall>j<length vals. \<bar>vals ! j\<bar> \<le> \<bar>vals ! k\<bar>) \<and>
           (\<forall>j<k. \<bar>vals ! j\<bar> < \<bar>vals ! k\<bar>)"
proof -
  define as where "as = map abs vals"
  define m where "m = Max (set as)"
  have len: "length as = length vals" by (simp add: as_def)
  have nth: "as ! j = \<bar>vals ! j\<bar>" if "j < length vals" for j
    using that by (simp add: as_def)
  have ne: "as \<noteq> []" using assms by (simp add: as_def)
  have "m \<in> set as" unfolding m_def by (rule Max_in) (simp_all add: ne)
  from py_index_first [OF this] obtain k where k: "k < length as" "py_index as m = Inr k"
    "as ! k = m" "\<forall>j<k. as ! j \<noteq> m" by blast
  have kv: "k < length vals" using k(1) len by simp
  have mk: "\<bar>vals ! k\<bar> = m" using k(3) nth [OF kv] by simp
  have le: "\<bar>vals ! j\<bar> \<le> m" if "j < length vals" for j
  proof -
    have "as ! j \<in> set as" using that len by simp
    then have "as ! j \<le> m" unfolding m_def by (intro Max_ge) simp_all
    then show ?thesis using nth [OF that] by simp
  qed
  have lt: "\<bar>vals ! j\<bar> < m" if "j < k" for j
  proof -
    have jl: "j < length vals" using that kv by simp
    have "as ! j \<noteq> m" using k(4) that by blast
    then show ?thesis using le [OF jl] nth [OF jl] by simp
  qed
  have idx: "py_index (map abs vals) (Max (set (map abs vals))) = Inr k"
    using k(2) by (simp only: as_def m_def)
  have all_le: "\<forall>j<length vals. \<bar>vals ! j\<bar> \<le> \<bar>vals ! k\<bar>"
    using le mk by simp
  have first: "\<forall>j<k. \<bar>vals ! j\<bar> < \<bar>vals ! k\<bar>"
    using lt mk by simp
  from kv idx all_le first show ?thesis by (intro exI [of _ k] conjI)
qed

lemma get_max_value_list:
  assumes "1 \<le> n" and fs: "fs = filter (is_present r) [1..n]" and "fs \<noteq> []"
  shows "\<exists>k<length fs.
           get_max_value r (Some n) = Inr (Some (sample_at r (fs ! k))) \<and>
           (\<forall>j<length fs. \<bar>sample_at r (fs ! j)\<bar> \<le> \<bar>sample_at r (fs ! k)\<bar>) \<and>
           (\<forall>j<k. \<bar>sample_at r (fs ! j)\<bar> < \<bar>sample_at r (fs ! k)\<bar>)"
proof -
  define vs where "vs = map (sample_at r) fs"
  have len: "length vs = length fs" by (simp add: vs_def)
  have nth: "vs ! j = sample_at r (fs ! j)" if "j < length fs" for j
    using that by (simp add: vs_def)
  have ne: "vs \<noteq> []" using assms(3) by (simp add: vs_def)
  have cv: "collect_values r [1..n] [] = Inr vs"
    by (simp add: collect_values_eq vs_def fs)
  from extreme_of_list [OF ne] obtain k where k: "k < length vs"
    "py_index (map abs vs) (Max (set (map abs vs))) = Inr k"
    "\<forall>j<length vs. \<bar>vs ! j\<bar> \<le> \<bar>vs ! k\<bar>" "\<forall>j<k. \<bar>vs ! j\<bar> < \<bar>vs ! k\<bar>" by blast
  have mx: "py_max (map abs vs) = Inr (Max (set (map abs vs)))"
    using ne by (intro py_max_eq) simp
  have "\<not> n < 1" using assms(1) by simp
  then have res: "get_max_value r (Some n) = Inr (Some (vs ! k))"
    by (simp only: get_max_value_def Let_def cv option.case sum.case if_False ne mx k(2)
          py_getitem_def k(1) if_True)
  have kl: "k < length fs" using k(1) len by simp
  have a: "\<bar>sample_at r (fs ! j)\<bar> \<le> \<bar>sample_at r (fs ! k)\<bar>" if "j < length fs" for j
  proof -
    have "\<bar>vs ! j\<bar> \<le> \<bar>vs ! k\<bar>" using k(3) that len by simp
    then show ?thesis using nth [OF that] nth [OF kl] by simp
  qed
  have b: "\<bar>sample_at r (fs ! j)\<bar> < \<bar>sample_at r (fs ! k)\<bar>" if "j < k" for j
  proof -
    have "j < length fs" using that kl by simp
    moreover have "\<bar>vs ! j\<bar> < \<bar>vs ! k\<bar>" using k(4) that by simp
    ultimately show ?thesis using nth [of j] nth [OF kl] by simp
  qed
  have "get_max_value r (Some n) = Inr (Some (sample_at r (fs ! k)))"
    using res nth [OF kl] by simp
  with kl a b show ?thesis by blast
qed

lemma filter_upto_sorted: "sorted_wrt (<) (filter P [1..n::int])"
  by (intro sorted_wrt_filter) (simp add: sorted_wrt_upto)

lemma first_extreme:
  assumes "1 \<le> n" and "1 \<le> i0" and "i0 \<le> n" and "value_cols r i0 = Some (Some v0)"
  shows "\<exists>i v. get_max_value r (Some n) = Inr (Some v) \<and> 1 \<le> i \<and> i \<le> n \<and>
           value_cols r i = Some (Some v) \<and>
           (\<forall>j w. 1 \<le> j \<and> j \<le> n \<and> value_cols r j = Some (Some w) \<longrightarrow>
                  \<bar>w\<bar> \<le> \<bar>v\<bar> \<and> (j < i \<longrightarrow> \<bar>w\<bar> < \<bar>v\<bar>))"
proof -
  define fs where "fs = filter (is_present r) [1..n]"
  have mem: "j \<in> set fs \<longleftrightarrow> 1 \<le> j \<and> j \<le> n \<and> is_present r j" for j
    by (simp add: fs_def)
  have srt: "sorted_wrt (<) fs" unfolding fs_def by (rule filter_upto_sorted)
  have "i0 \<in> set fs" using assms by (simp add: mem is_present_iff)
  then have ne: "fs \<noteq> []" by auto
  from get_max_value_list [OF assms(1) fs_def ne] obtain k where k: "k < length fs"
    "get_max_value r (Some n) = Inr (Some (sample_at r (fs ! k)))"
    "\<forall>j<length fs. \<bar>sample_at r (fs ! j)\<bar> \<le> \<bar>sample_at r (fs ! k)\<bar>"
    "\<forall>j<k. \<bar>sample_at r (fs ! j)\<bar> < \<bar>sample_at r (fs ! k)\<bar>" by blast
  define i where "i = fs ! k"
  have "i \<in> set fs" unfolding i_def using k(1) by (rule nth_mem)
  then have i: "1 \<le> i" "i \<le> n" "is_present r i" by (simp_all add: mem)
  then obtain v where v: "value_cols r i = Some (Some v)" by (auto simp: is_present_iff)
  have sv: "sample_at r i = v" using v by (rule sample_at_eq)
  have res: "get_max_value r (Some n) = Inr (Some v)" using k(2) sv by (simp add: i_def)
  have dom: "\<bar>w\<bar> \<le> \<bar>v\<bar> \<and> (j < i \<longrightarrow> \<bar>w\<bar> < \<bar>v\<bar>)"
    if j: "1 \<le> j \<and> j \<le> n \<and> value_cols r j = Some (Some w)" for j w
  proof -
    have "j \<in> set fs" using j by (simp add: mem is_present_iff)
    then obtain j' where j': "j' < length fs" "fs ! j' = j" by (auto simp: in_set_conv_nth)
    have sw: "sample_at r j = w" using j by (simp add: sample_at_eq)
    have "\<bar>sample_at r (fs ! j')\<bar> \<le> \<bar>sample_at r (fs ! k)\<bar>" using k(3) j'(1) by simp
    then have le: "\<bar>w\<bar> \<le> \<bar>v\<bar>" using j'(2) sw sv by (simp add: i_def)
    have "\<bar>w\<bar> < \<bar>v\<bar>" if "j < i"
    proof -
      have "j' < k"
      proof (rule ccontr)
        assume "\<not> j' < k"
        then consider "k = j'" | "k < j'" by linarith
        then have "fs ! k \<le> fs ! j'"
        proof cases
          case 1
          then show ?thesis by simp
        next
          case 2
          then have "fs ! k < fs ! j'" using srt j'(1) by (simp add: sorted_wrt_iff_nth_less)
          then show ?thesis by simp
        qed
        with \<open>j < i\<close> j'(2) show False by (simp add: i_def)
      qed
      then have "\<bar>sample_at r (fs ! j')\<bar> < \<bar>sample_at r (fs ! k)\<bar>" using k(4) by simp
      then show ?thesis using j'(2) sw sv by (simp add: i_def)
    qed
    with le show ?thesis by simp
  qed
  have "\<forall>j w. 1 \<le> j \<and> j \<le> n \<and> value_cols r j = Some (Some w) \<longrightarrow>
          \<bar>w\<bar> \<le> \<bar>v\<bar> \<and> (j < i \<longrightarrow> \<bar>w\<bar> < \<bar>v\<bar>)"
    using dom by (intro allI impI)
  with res i(1,2) v show ?thesis
    by (intro exI [of _ i] exI [of _ v] conjI)
qed

text \<open>
  C3: when the frame count is at least 1 and at least one of the columns \<open>value_1\<close> to
  \<open>value_frames\<close> holds a number, \<open>get_max_value\<close> returns one of those numbers,
  sign kept, whose absolute value is the largest; every number in a column of lower index
  has a strictly smaller absolute value, so on a tie the lowest frame index wins. On the
  samples 2, -9, 3 the result is -9 and on 5, -5, 1 it is 5.
\<close>

theorem get_max_value_extreme:
  assumes "1 \<le> n" and "1 \<le> i0" and "i0 \<le> n" and "value_cols r i0 = Some (Some v0)"
  shows "(\<exists>i v. get_max_value r (Some n) = Inr (Some v) \<and> 1 \<le> i \<and> i \<le> n \<and>
            value_cols r i = Some (Some v) \<and>
            (\<forall>j w. 1 \<le> j \<and> j \<le> n \<and> value_cols r j = Some (Some w) \<longrightarrow>
                   \<bar>w\<bar> \<le> \<bar>v\<bar> \<and> (j < i \<longrightarrow> \<bar>w\<bar> < \<bar>v\<bar>))) \<and>
         get_max_value (mk_row None None None [] [Some 2, Some (- 9), Some 3]) (Some 3)
           = Inr (Some (- 9)) \<and>
         get_max_value (mk_row None None None [] [Some 5, Some (- 5), Some 1]) (Some 3)
           = Inr (Some 5)"
proof -
  have sign: "get_max_value (mk_row None None None [] [Some 2, Some (- 9), Some 3]) (Some 3)
                = Inr (Some (- 9))"
    by code_simp
  have tie: "get_max_value (mk_row None None None [] [Some 5, Some (- 5), Some 1]) (Some 3)
               = Inr (Some 5)"
    by code_simp
  from first_extreme [OF assms] sign tie show ?thesis by (intro conjI)
qed

theorem get_max_value_extreme_witness:
  "(1::int) \<le> 3 \<and> (1::int) \<le> 2 \<and> (2::int) \<le> 3 \<and>
   value_cols (mk_row None None None [] [Some 5, Some (- 5), Some 1]) 2 = Some (Some (- 5)) \<and>
   get_max_value (mk_row None None None [] [Some 5, Some (- 5), Some 1]) (Some 3) = Inr (Some 5)"
proof -
  have h: "value_cols (mk_row None None None [] [Some 5, Some (- 5), Some 1]) 2
             = Some (Some (- 5))"
    by (simp add: mk_row_def)
  have "get_max_value (mk_row None None None [] [Some 5, Some (- 5), Some 1]) (Some 3)
          = Inr (Some 5)"
    using get_max_value_extreme [OF _ _ _ h, of 3] by simp
  with h show ?thesis by simp
qed

section \<open>What raises, and what a data-quality problem gives\<close>

lemma get_value_at_frame_returns: "\<exists>v. get_value_at_frame r frame_num = Inr v"
  by (simp add: get_value_at_frame_def in_index_def row_getitem_def split: option.splits)

lemma get_max_value_returns: "\<exists>v. get_max_value r frames = Inr v"
proof (cases frames)
  case None
  then show ?thesis by (simp add: get_max_value_def)
next
  case (Some n)
  define vs where "vs = map (sample_at r) (filter (is_present r) [1..n])"
  have cv: "collect_values r [1..n] [] = Inr vs"
    by (simp add: collect_values_eq vs_def)
  show ?thesis
  proof (cases "n < 1 \<or> vs = []")
    case True
    then show ?thesis using Some by (auto simp: get_max_value_def cv)
  next
    case False
    then have ne: "vs \<noteq> []" and n: "\<not> n < 1" by simp_all
    from extreme_of_list [OF ne] obtain k where k: "k < length vs"
      "py_index (map abs vs) (Max (set (map abs vs))) = Inr k" by blast
    have mx: "py_max (map abs vs) = Inr (Max (set (map abs vs)))"
      using ne by (intro py_max_eq) simp
    have "get_max_value r (Some n) = Inr (Some (vs ! k))"
      using n
      by (simp only: get_max_value_def Let_def cv option.case sum.case if_False ne mx k(2)
            py_getitem_def k(1) if_True)
    then show ?thesis using Some by simp
  qed
qed

lemma get_max_value_all_missing:
  assumes "\<forall>i. 1 \<le> i \<and> i \<le> n \<longrightarrow> value_cols r i = None \<or> value_cols r i = Some None"
  shows "get_max_value r (Some n) = Inr None"
proof -
  have "filter (is_present r) [1..n] = []"
    using assms by (auto simp: filter_empty_conv is_present_def)
  then show ?thesis by (simp add: get_max_value_def collect_values_eq)
qed

lemma time_to_frame_raises:
  assumes "time_to_frame event_time time_start time_end frames = Inl err"
  shows "\<exists>t s e. event_time = Some t \<and> time_start = Some s \<and> time_end = Some e \<and>
           1 < frames \<and> s \<le> t \<and> t \<le> e \<and> s < e \<and> interpolate t s e frames = Inl err"
  using assms
  by (auto simp: time_to_frame_def split: option.splits if_splits sum.splits)

lemma event_value_undefined:
  assumes "frames_col r = FramesInt k"
    and "num_col r event_col = None \<or> num_col r ''time_start'' = None \<or>
         num_col r ''time_end'' = None \<or> k \<le> 1"
  shows "event_value r event_col = Inr None"
proof (cases "num_col r event_col = None \<or> num_col r ''time_start'' = None \<or>
              num_col r ''time_end'' = None")
  case True
  then show ?thesis by (auto simp: event_value_def Let_def)
next
  case False
  with assms(2) have k: "k \<le> 1" by blast
  have "time_to_frame (num_col r event_col) (num_col r ''time_start'')
          (num_col r ''time_end'') k = Inr None"
    using k by (auto simp: time_to_frame_def split: option.splits)
  then show ?thesis
    by (simp add: event_value_def Let_def assms(1) get_value_at_frame_def)
qed

lemma event_value_raises:
  assumes "frames_col r = FramesInt k" and "event_value r event_col = Inl err"
  shows "\<exists>t s e. num_col r event_col = Some t \<and> num_col r ''time_start'' = Some s \<and>
           num_col r ''time_end'' = Some e \<and> 1 < k \<and> s \<le> t \<and> t \<le> e \<and> s < e \<and>
           interpolate t s e k = Inl err"
proof -
  let ?tf = "time_to_frame (num_col r event_col) (num_col r ''time_start'')
               (num_col r ''time_end'') k"
  have "?tf = Inl err"
  proof (cases ?tf)
    case (Inl a)
    with assms show ?thesis
      by (simp add: event_value_def Let_def split: if_splits)
  next
    case (Inr fn)
    obtain v where "get_value_at_frame r fn = Inr v"
      using get_value_at_frame_returns by blast
    with Inr assms show ?thesis
      by (simp add: event_value_def Let_def split: if_splits)
  qed
  then show ?thesis by (rule time_to_frame_raises)
qed

lemma process_events_raises:
  "process_events r evs m = Inl err \<Longrightarrow>
   \<exists>event_name event_col. (event_name, event_col) \<in> set evs \<and> event_value r event_col = Inl err"
proof (induction evs arbitrary: m)
  case Nil
  then show ?case by simp
next
  case (Cons ev evs)
  obtain event_name event_col where ev: "ev = (event_name, event_col)" by (cases ev)
  show ?case
  proof (cases "event_value r event_col")
    case (Inl a)
    with Cons.prems have "a = err" by (simp add: ev)
    with Inl show ?thesis by (auto simp: ev)
  next
    case (Inr val)
    with Cons.prems
    have "process_events r evs (m((''@'' @ event_name) \<mapsto> val)) = Inl err"
      by (simp add: ev)
    from Cons.IH [OF this] show ?thesis by auto
  qed
qed

lemma process_events_other:
  "process_events r evs m = Inr out \<Longrightarrow> key \<notin> (\<lambda>ev. ''@'' @ fst ev) ` set evs \<Longrightarrow>
   out key = m key"
proof (induction evs arbitrary: m)
  case Nil
  then show ?case by simp
next
  case (Cons ev evs)
  obtain event_name event_col where ev: "ev = (event_name, event_col)" by (cases ev)
  from Cons.prems(1) obtain val where val: "event_value r event_col = Inr val"
    and rest: "process_events r evs (m((''@'' @ event_name) \<mapsto> val)) = Inr out"
    by (auto simp: ev split: sum.splits)
  have "key \<notin> (\<lambda>ev. ''@'' @ fst ev) ` set evs" and "key \<noteq> ''@'' @ event_name"
    using Cons.prems(2) by (auto simp: ev)
  with Cons.IH [OF rest] show ?case by simp
qed

lemma process_events_lookup:
  "process_events r evs m = Inr out \<Longrightarrow> distinct (map fst evs) \<Longrightarrow>
   (event_name, event_col) \<in> set evs \<Longrightarrow> event_value r event_col = Inr v \<Longrightarrow>
   out (''@'' @ event_name) = Some v"
proof (induction evs arbitrary: m)
  case Nil
  then show ?case by simp
next
  case (Cons ev evs)
  obtain name' col' where ev: "ev = (name', col')" by (cases ev)
  from Cons.prems(1) obtain val where val: "event_value r col' = Inr val"
    and rest: "process_events r evs (m((''@'' @ name') \<mapsto> val)) = Inr out"
    by (auto simp: ev split: sum.splits)
  have dist: "distinct (map fst evs)" and fresh: "name' \<notin> fst ` set evs"
    using Cons.prems(2) by (simp_all add: ev)
  show ?case
  proof (cases "(event_name, event_col) \<in> set evs")
    case True
    from Cons.IH [OF rest dist True Cons.prems(4)] show ?thesis .
  next
    case False
    with Cons.prems(3) have eq: "name' = event_name" "col' = event_col" by (simp_all add: ev)
    have "''@'' @ event_name \<notin> (\<lambda>ev. ''@'' @ fst ev) ` set evs"
      using fresh eq(1) by auto
    from process_events_other [OF rest this] val Cons.prems(4) show ?thesis
      by (simp add: eq)
  qed
qed

lemma extract_event_samples_raises:
  assumes "frames_col r = FramesInt k" and "extract_event_samples r evs = Inl err"
  shows "\<exists>event_name event_col. (event_name, event_col) \<in> set evs \<and>
           event_value r event_col = Inl err"
proof -
  obtain mv where mv: "get_max_value r (Some k) = Inr mv"
    using get_max_value_returns by blast
  have "process_events r evs Map.empty = Inl err"
    using assms mv
    by (auto simp: extract_event_samples_def get_max_value_cell_def split: sum.splits if_splits)
  then show ?thesis by (rule process_events_raises)
qed

lemma extract_event_samples_lookup:
  assumes "extract_event_samples r evs = Inr out" and "distinct (map fst evs)"
    and "(event_name, event_col) \<in> set evs" and "event_name \<noteq> ''max''"
    and "event_value r event_col = Inr v"
  shows "out (''@'' @ event_name) = Some v"
proof -
  from assms(1) obtain m mv where m: "process_events r evs Map.empty = Inr m"
    and out: "out = m(''@max'' \<mapsto> mv)"
    by (auto simp: extract_event_samples_def split: sum.splits if_splits)
  from process_events_lookup [OF m assms(2,3,5)] assms(4) show ?thesis
    by (simp add: out)
qed

lemma null_frame_count_raises:
  assumes "frames_col r = FramesNaN"
  shows "\<exists>err. extract_event_samples r evs = Inl err"
  by (cases "process_events r evs Map.empty")
     (simp_all add: extract_event_samples_def assms truthy_def get_max_value_cell_def)

lemma event_value_overflow:
  "event_value
     (mk_row (Some (- (2 ^ 1023))) (Some (2 ^ 1023)) (Some 3)
        [(''event_release_time'', 2 ^ 1023)] [Some 1, None, Some 3])
     ''event_release_time'' = Inl ValueError"
proof -
  have "time_to_frame (Some (2 ^ 1023)) (Some (- (2 ^ 1023))) (Some (2 ^ 1023)) 3
          = Inl ValueError"
    using interpolate_overflow by (simp add: time_to_frame_def)
  then show ?thesis
    by (simp add: event_value_def Let_def mk_row_def truthy_def)
qed

lemma event_value_degenerate:
  "event_value
     (mk_row (Some 5) (Some 5) (Some 3) [(''event_release_time'', 5)]
        [Some 10, Some 20, Some 30])
     ''event_release_time'' = Inr (Some 10)"
proof -
  have "time_to_frame (Some 5) (Some 5) (Some 5) 3 = Inr (Some 1)"
    by (simp add: time_to_frame_def)
  then show ?thesis
    by (simp add: event_value_def Let_def mk_row_def truthy_def get_value_at_frame_def
          in_index_def row_getitem_def)
qed

text \<open>
  C8, as stated, fails: a row with a missing sample whose window runs from -2^1023 to
  2^1023, with an event at the end of the window, makes the extraction raise
  \<open>ValueError\<close> (the float differences are infinite, their quotient is NaN, and
  \<open>round\<close> raises); and a degenerate window does not give an undefined field: on the
  window 5 to 5 an event at 5 gets the value of frame 1.
\<close>

theorem data_quality_counterexample:
  "extract_event_samples
     (mk_row (Some (- (2 ^ 1023))) (Some (2 ^ 1023)) (Some 3)
        [(''event_release_time'', 2 ^ 1023)] [Some 1, None, Some 3])
     [(''release'', ''event_release_time'')] = Inl ValueError \<and>
   event_value
     (mk_row (Some 5) (Some 5) (Some 3) [(''event_release_time'', 5)]
        [Some 10, Some 20, Some 30])
     ''event_release_time'' = Inr (Some 10)"
proof -
  have "extract_event_samples
          (mk_row (Some (- (2 ^ 1023))) (Some (2 ^ 1023)) (Some 3)
             [(''event_release_time'', 2 ^ 1023)] [Some 1, None, Some 3])
          [(''release'', ''event_release_time'')] = Inl ValueError"
    by (simp only: extract_event_samples_def process_events.simps event_value_overflow
          sum.case)
  with event_value_degenerate show ?thesis by (intro conjI)
qed

text \<open>
  C8, amended: \<open>get_value_at_frame\<close> and \<open>get_max_value\<close> never raise;
  \<open>time_to_frame\<close> returns \<open>None\<close> when a time is missing or the frame count is at
  most 1, and on a degenerate window returns frame 1 or the last frame, a defined frame; a
  missing sample makes \<open>get_value_at_frame\<close> return \<open>None\<close>, and a row whose samples
  are all missing makes \<open>get_max_value\<close> return \<open>None\<close>; for a row with an integer
  frame count, an event with a missing time, or any event when the frame count is at most
  1, gets the value \<open>None\<close>, which is what the output row holds for it; and the
  extraction of such a row raises only an exception that the float interpolation of
  \<open>time_to_frame\<close> raises for one of its events.
\<close>

theorem data_quality_handling:
  "(\<exists>v. get_value_at_frame r frame_num = Inr v) \<and>
   (\<exists>v. get_max_value r frames_opt = Inr v) \<and>
   (event_time = None \<or> time_start = None \<or> time_end = None \<or> frames \<le> 1 \<longrightarrow>
      time_to_frame event_time time_start time_end frames = Inr None) \<and>
   (1 < frames \<longrightarrow>
      time_to_frame (Some t) (Some w) (Some w) frames
        = Inr (Some (if t \<le> w then 1 else frames))) \<and>
   (value_cols r n = None \<or> value_cols r n = Some None \<longrightarrow>
      get_value_at_frame r (Some n) = Inr None) \<and>
   ((\<forall>i. 1 \<le> i \<and> i \<le> n \<longrightarrow> value_cols r i = None \<or> value_cols r i = Some None) \<longrightarrow>
      get_max_value r (Some n) = Inr None) \<and>
   (frames_col r = FramesInt k \<and>
    (num_col r event_col = None \<or> num_col r ''time_start'' = None \<or>
     num_col r ''time_end'' = None \<or> k \<le> 1) \<longrightarrow>
      event_value r event_col = Inr None) \<and>
   (frames_col r = FramesInt k \<and>
    (num_col r event_col = None \<or> num_col r ''time_start'' = None \<or>
     num_col r ''time_end'' = None \<or> k \<le> 1) \<and>
    extract_event_samples r available_events = Inr out \<and>
    distinct (map fst available_events) \<and>
    (event_name, event_col) \<in> set available_events \<and> event_name \<noteq> ''max'' \<longrightarrow>
      out (''@'' @ event_name) = Some None) \<and>
   (frames_col r = FramesInt k \<and> extract_event_samples r available_events = Inl err \<longrightarrow>
      (\<exists>name col t s e. (name, col) \<in> set available_events \<and> num_col r col = Some t \<and>
         num_col r ''time_start'' = Some s \<and> num_col r ''time_end'' = Some e \<and>
         1 < k \<and> s \<le> t \<and> t \<le> e \<and> s < e \<and> interpolate t s e k = Inl err))"
proof -
  have a: "time_to_frame event_time time_start time_end frames = Inr None"
    if "event_time = None \<or> time_start = None \<or> time_end = None \<or> frames \<le> 1"
    using that by (auto simp: time_to_frame_def split: option.splits)
  have b: "time_to_frame (Some t) (Some w) (Some w) frames
             = Inr (Some (if t \<le> w then 1 else frames))" if "1 < frames"
    using that by (simp add: time_to_frame_def)
  have c: "get_value_at_frame r (Some n) = Inr None"
    if "value_cols r n = None \<or> value_cols r n = Some None"
    using that by (auto simp: get_value_at_frame_def in_index_def row_getitem_def)
  have d: "get_max_value r (Some n) = Inr None"
    if "\<forall>i. 1 \<le> i \<and> i \<le> n \<longrightarrow> value_cols r i = None \<or> value_cols r i = Some None"
    using that by (rule get_max_value_all_missing)
  have e: "event_value r event_col = Inr None"
    if "frames_col r = FramesInt k \<and>
        (num_col r event_col = None \<or> num_col r ''time_start'' = None \<or>
         num_col r ''time_end'' = None \<or> k \<le> 1)"
    using that event_value_undefined [of r k event_col] by blast
  have f: "out (''@'' @ event_name) = Some None"
    if "frames_col r = FramesInt k \<and>
        (num_col r event_col = None \<or> num_col r ''time_start'' = None \<or>
         num_col r ''time_end'' = None \<or> k \<le> 1) \<and>
        extract_event_samples r available_events = Inr out \<and>
        distinct (map fst available_events) \<and>
        (event_name, event_col) \<in> set available_events \<and> event_name \<noteq> ''max''"
  proof -
    from that have "event_value r event_col = Inr None" using e by blast
    with that show ?thesis
      using extract_event_samples_lookup [of r available_events out event_name event_col None]
      by blast
  qed
  have g: "\<exists>name col t s e. (name, col) \<in> set available_events \<and> num_col r col = Some t \<and>
             num_col r ''time_start'' = Some s \<and> num_col r ''time_end'' = Some e \<and>
             1 < k \<and> s \<le> t \<and> t \<le> e \<and> s < e \<and> interpolate t s e k = Inl err"
    if h: "frames_col r = FramesInt k \<and> extract_event_samples r available_events = Inl err"
  proof -
    from h extract_event_samples_raises [of r k available_events err]
    obtain name col where nc: "(name, col) \<in> set available_events"
      "event_value r col = Inl err" by blast
    from h nc(2) event_value_raises [of r k col err]
    obtain t s e where "num_col r col = Some t" "num_col r ''time_start'' = Some s"
      "num_col r ''time_end'' = Some e" "1 < k" "s \<le> t" "t \<le> e" "s < e"
      "interpolate t s e k = Inl err" by blast
    with nc(1) show ?thesis by blast
  qed
  from a b c d e f g get_value_at_frame_returns [of r frame_num]
    get_max_value_returns [of r frames_opt]
  show ?thesis by (intro conjI impI)
qed

theorem data_quality_handling_witness:
  "(1::int) < 3 \<and>
   value_cols (mk_row (Some 5) (Some 5) (Some 3) [] [None, None, None]) 2 = Some None \<and>
   value_cols (mk_row (Some 5) (Some 5) (Some 3) [] [None, None, None]) 1 = Some None \<and>
   value_cols (mk_row (Some 5) (Some 5) (Some 3) [] [None, None, None]) 3 = Some None \<and>
   frames_col (mk_row (Some 5) (Some 5) (Some 3) [] [None, None, None]) = FramesInt 3 \<and>
   num_col (mk_row (Some 5) (Some 5) (Some 3) [] [None, None, None]) ''event_release_time''
     = None \<and>
   extract_event_samples (mk_row (Some 5) (Some 5) (Some 3) [] [None, None, None])
     [(''release'', ''event_release_time'')] = Inr [''@release'' \<mapsto> None, ''@max'' \<mapsto> None] \<and>
   time_to_frame None (Some 5) (Some 5) 3 = Inr None \<and>
   time_to_frame (Some 9) (Some 5) (Some 5) 3 = Inr (Some 3) \<and>
   get_value_at_frame (mk_row (Some 5) (Some 5) (Some 3) [] [None, None, None]) (Some 2)
     = Inr None \<and>
   get_max_value (mk_row (Some 5) (Some 5) (Some 3) [] [None, None, None]) (Some 3)
     = Inr None \<and>
   event_value (mk_row (Some 5) (Some 5) (Some 3) [] [None, None, None])
     ''event_release_time'' = Inr None \<and>
   [''@release'' \<mapsto> None, ''@max'' \<mapsto> (None::rat option)] (''@'' @ ''release'') = Some None \<and>
   extract_event_samples
     (mk_row (Some (- (2 ^ 1023))) (Some (2 ^ 1023)) (Some 3)
        [(''event_release_time'', 2 ^ 1023)] [Some 1, None, Some 3])
     [(''release'', ''event_release_time'')] = Inl ValueError \<and>
   (\<exists>name col t s e. (name, col) \<in> set [(''release'', ''event_release_time'')] \<and>
      num_col (mk_row (Some (- (2 ^ 1023))) (Some (2 ^ 1023)) (Some 3)
                 [(''event_release_time'', 2 ^ 1023)] [Some 1, None, Some 3]) col = Some t \<and>
      num_col (mk_row (Some (- (2 ^ 1023))) (Some (2 ^ 1023)) (Some 3)
                 [(''event_release_time'', 2 ^ 1023)] [Some 1, None, Some 3]) ''time_start''
        = Some s \<and>
      num_col (mk_row (Some (- (2 ^ 1023))) (Some (2 ^ 1023)) (Some 3)
                 [(''event_release_time'', 2 ^ 1023)] [Some 1, None, Some 3]) ''time_end''
        = Some e \<and>
      (1::int) < 3 \<and> s \<le> t \<and> t \<le> e \<and> s < e \<and> interpolate t s e 3 = Inl ValueError)"
proof -
  define R where "R = mk_row (Some 5) (Some 5) (Some 3) [] [None, None, None]"
  define R3 where "R3 = mk_row (Some (- (2 ^ 1023))) (Some (2 ^ 1023)) (Some 3)
                          [(''event_release_time'', 2 ^ 1023)] [Some 1, None, Some 3]"
  define EVS where "EVS = [(''release'', ''event_release_time'')]"
  define OUT :: new_row where "OUT = [''@release'' \<mapsto> None, ''@max'' \<mapsto> None]"
  have h0: "(1::int) < 3" by simp
  have h1: "value_cols R 2 = Some None" by (simp add: R_def mk_row_def)
  have h2: "\<forall>i. 1 \<le> i \<and> i \<le> 3 \<longrightarrow> value_cols R i = None \<or> value_cols R i = Some None"
  proof (intro allI impI)
    fix i :: int
    assume "1 \<le> i \<and> i \<le> 3"
    then have "i = 1 \<or> i = 2 \<or> i = 3" by auto
    then show "value_cols R i = None \<or> value_cols R i = Some None"
      by (auto simp: R_def mk_row_def)
  qed
  have h3: "frames_col R = FramesInt 3" by (simp add: R_def mk_row_def)
  have h4: "num_col R ''event_release_time'' = None" by (simp add: R_def mk_row_def)
  have ev: "event_value R ''event_release_time'' = Inr None"
    by (simp add: event_value_def Let_def h4)
  have mx: "get_max_value R (Some 3) = Inr None" using h2 by (rule get_max_value_all_missing)
  have h5: "extract_event_samples R EVS = Inr OUT"
    by (simp add: extract_event_samples_def EVS_def ev h3 truthy_def get_max_value_cell_def mx
          OUT_def)
  have h6: "distinct (map fst EVS)" "(''release'', ''event_release_time'') \<in> set EVS"
    "''release'' \<noteq> ''max''" by (simp_all add: EVS_def)
  have k3: "frames_col R3 = FramesInt 3" by (simp only: R3_def mk_row_def row.simps option.case)
  have x3: "extract_event_samples R3 EVS = Inl ValueError"
    unfolding R3_def EVS_def
    by (simp only: extract_event_samples_def process_events.simps event_value_overflow
          sum.case)
  note A = data_quality_handling [where r = R and frame_num = "Some 2" and frames_opt = "Some 3"
      and event_time = None and time_start = "Some 5" and time_end = "Some 5" and frames = 3
      and t = 9 and w = 5 and n = 3 and k = 3 and event_col = "''event_release_time''"
      and available_events = EVS and out = OUT and event_name = "''release''"]
  note B = data_quality_handling [where r = R3 and k = 3 and available_events = EVS
      and err = ValueError]
  have c1: "time_to_frame None (Some 5) (Some 5) 3 = Inr None" using A by blast
  have c2: "time_to_frame (Some 9) (Some 5) (Some 5) 3 = Inr (Some 3)" using A h0 by simp
  have c4: "event_value R ''event_release_time'' = Inr None" using A h3 h4 by blast
  have c5: "OUT (''@'' @ ''release'') = Some None" using A h3 h4 h5 h6 by blast
  have c6: "\<exists>name col t s e. (name, col) \<in> set EVS \<and> num_col R3 col = Some t \<and>
              num_col R3 ''time_start'' = Some s \<and> num_col R3 ''time_end'' = Some e \<and>
              (1::int) < 3 \<and> s \<le> t \<and> t \<le> e \<and> s < e \<and> interpolate t s e 3 = Inl ValueError"
    using B k3 x3 by blast
  have c7: "get_value_at_frame R (Some 2) = Inr None"
    using data_quality_handling [where r = R and n = 2] h1 by blast
  have h1a: "value_cols R 1 = Some None" and h1b: "value_cols R 3 = Some None"
    by (simp_all add: R_def mk_row_def)
  have c8: "get_max_value R (Some 3) = Inr None" using A h2 by blast
  from h0 h1 h1a h1b h3 h4 h5 c1 c2 c7 c8 c4 c5 x3 c6
  show ?thesis unfolding R_def R3_def EVS_def OUT_def by (intro conjI)
qed

section \<open>Rows with fewer samples than the frame count\<close>

lemma mk_row_value_cols:
  "value_cols (mk_row ts te fr evs samples) i =
     (if 1 \<le> i \<and> i \<le> int (length samples) then Some (samples ! nat (i - 1)) else None)"
  by (simp add: mk_row_def)

text \<open>
  C1, as stated, fails: for a row that declares 5 frames and has the 3 samples 1, 2, 3,
  \<open>get_max_value\<close> returns 3, \<open>get_value_at_frame\<close> at frame 5 returns \<open>None\<close>
  and the extraction of the row returns an output row; with the frame count 0 or -2
  \<open>get_max_value\<close> returns \<open>None\<close>. Nothing is raised.
\<close>

theorem short_row_counterexample:
  "get_max_value (mk_row (Some 0) (Some 1) (Some 5) [] [Some 1, Some 2, Some 3]) (Some 5)
     = Inr (Some 3) \<and>
   get_value_at_frame (mk_row (Some 0) (Some 1) (Some 5) [] [Some 1, Some 2, Some 3]) (Some 5)
     = Inr None \<and>
   \<not> isl (extract_event_samples
            (mk_row (Some 0) (Some 1) (Some 5) [(''event_release_time'', 1)]
               [Some 1, Some 2, Some 3])
            [(''release'', ''event_release_time'')]) \<and>
   get_max_value (mk_row (Some 0) (Some 1) (Some 0) [] [Some 1, Some 2, Some 3]) (Some 0)
     = Inr None \<and>
   get_max_value (mk_row (Some 0) (Some 1) (Some (- 2)) [] [Some 1, Some 2, Some 3]) (Some (- 2))
     = Inr None"
proof -
  let ?r = "mk_row (Some 0) (Some 1) (Some 5) [(''event_release_time'', 1)]
              [Some 1, Some 2, Some 3]"
  have a: "get_max_value (mk_row (Some 0) (Some 1) (Some 5) [] [Some 1, Some 2, Some 3]) (Some 5)
             = Inr (Some 3)"
    by code_simp
  have b: "get_value_at_frame (mk_row (Some 0) (Some 1) (Some 5) [] [Some 1, Some 2, Some 3])
             (Some 5) = Inr None"
    by code_simp
  have tf: "time_to_frame (Some 1) (Some 0) (Some 1) 5 = Inr (Some 5)"
    by (simp add: time_to_frame_def interpolate_1_0_1_5)
  have gv: "get_value_at_frame ?r (Some 5) = Inr None"
    by (simp add: get_value_at_frame_def in_index_def mk_row_def)
  have ev: "event_value ?r ''event_release_time'' = Inr None"
    using gv by (simp add: event_value_def Let_def mk_row_def truthy_def tf)
  obtain mv where mv: "get_max_value ?r (Some 5) = Inr mv"
    using get_max_value_returns by blast
  have fr: "frames_col ?r = FramesInt 5" by (simp add: mk_row_def)
  have c: "\<not> isl (extract_event_samples ?r [(''release'', ''event_release_time'')])"
    by (simp add: extract_event_samples_def ev truthy_def fr get_max_value_cell_def mv)
  have d: "get_max_value (mk_row (Some 0) (Some 1) (Some 0) [] [Some 1, Some 2, Some 3]) (Some 0)
             = Inr None"
    by (simp add: get_max_value_def)
  have e: "get_max_value (mk_row (Some 0) (Some 1) (Some (- 2)) [] [Some 1, Some 2, Some 3])
             (Some (- 2)) = Inr None"
    by (simp add: get_max_value_def)
  from a b c d e show ?thesis by (intro conjI)
qed

text \<open>
  C1, amended: for a row that holds the samples \<open>value_1\<close> to \<open>value_m\<close> and declares
  a frame count \<open>n\<close> above \<open>m\<close>, no integrity error is raised:
  \<open>get_value_at_frame\<close> returns \<open>None\<close> at every frame beyond \<open>m\<close>, so an event
  that \<open>time_to_frame\<close> maps to such a frame gets the value \<open>None\<close>;
  \<open>get_max_value\<close> returns \<open>None\<close> when every supplied sample is missing, and
  otherwise the supplied sample of largest absolute value, sign kept, the first such
  sample on a tie; with a zero or negative frame count \<open>get_max_value\<close> returns
  \<open>None\<close>.
\<close>

theorem short_row:
  assumes "r = mk_row ts te fr evs samples" and "int (length samples) < n"
  shows "(int (length samples) < k \<longrightarrow> get_value_at_frame r (Some k) = Inr None) \<and>
         ((\<forall>j<length samples. samples ! j = None) \<longrightarrow> get_max_value r (Some n) = Inr None) \<and>
         ((\<exists>j<length samples. samples ! j \<noteq> None) \<longrightarrow>
            (\<exists>i v. i < length samples \<and> samples ! i = Some v \<and>
               get_max_value r (Some n) = Inr (Some v) \<and>
               (\<forall>j w. j < length samples \<and> samples ! j = Some w \<longrightarrow>
                  \<bar>w\<bar> \<le> \<bar>v\<bar> \<and> (j < i \<longrightarrow> \<bar>w\<bar> < \<bar>v\<bar>)))) \<and>
         (m \<le> 0 \<longrightarrow> get_max_value r (Some m) = Inr None) \<and>
         (fr = Some n \<and> time_to_frame (num_col r event_col) ts te n = Inr (Some f) \<and>
          int (length samples) < f \<longrightarrow> event_value r event_col = Inr None)"
proof -
  have vc: "value_cols r i =
              (if 1 \<le> i \<and> i \<le> int (length samples) then Some (samples ! nat (i - 1)) else None)"
    for i
    by (simp add: assms(1) mk_row_value_cols)
  have beyond: "get_value_at_frame r (Some k) = Inr None" if "int (length samples) < k" for k
    using that by (simp add: get_value_at_frame_def in_index_def vc)
  have none: "get_max_value r (Some n) = Inr None" if "\<forall>j<length samples. samples ! j = None"
  proof (rule get_max_value_all_missing, intro allI impI)
    fix i :: int
    assume i: "1 \<le> i \<and> i \<le> n"
    show "value_cols r i = None \<or> value_cols r i = Some None"
    proof (cases "i \<le> int (length samples)")
      case True
      with i have "nat (i - 1) < length samples" by auto
      with that have "samples ! nat (i - 1) = None" by blast
      with True i show ?thesis by (simp add: vc)
    next
      case False
      then show ?thesis by (simp add: vc)
    qed
  qed
  have some: "\<exists>i v. i < length samples \<and> samples ! i = Some v \<and>
                get_max_value r (Some n) = Inr (Some v) \<and>
                (\<forall>j w. j < length samples \<and> samples ! j = Some w \<longrightarrow>
                   \<bar>w\<bar> \<le> \<bar>v\<bar> \<and> (j < i \<longrightarrow> \<bar>w\<bar> < \<bar>v\<bar>))"
    if "\<exists>j<length samples. samples ! j \<noteq> None"
  proof -
    from that obtain j0 v0 where j0: "j0 < length samples" "samples ! j0 = Some v0" by auto
    have p1: "1 \<le> n" using assms(2) by linarith
    have p2: "1 \<le> int j0 + 1" by simp
    have p3: "int j0 + 1 \<le> n" using j0(1) assms(2) by linarith
    have p4: "value_cols r (int j0 + 1) = Some (Some v0)" using j0 by (simp add: vc)
    from first_extreme [OF p1 p2 p3 p4] obtain i v where iv:
      "get_max_value r (Some n) = Inr (Some v)" "1 \<le> i" "i \<le> n"
      "value_cols r i = Some (Some v)"
      "\<forall>j w. 1 \<le> j \<and> j \<le> n \<and> value_cols r j = Some (Some w) \<longrightarrow>
              \<bar>w\<bar> \<le> \<bar>v\<bar> \<and> (j < i \<longrightarrow> \<bar>w\<bar> < \<bar>v\<bar>)"
      by blast
    have il: "i \<le> int (length samples)" and si: "samples ! nat (i - 1) = Some v"
      using iv(2,4) by (auto simp: vc split: if_splits)
    have idx: "nat (i - 1) < length samples" using iv(2) il by auto
    have dom: "\<bar>w\<bar> \<le> \<bar>v\<bar> \<and> (j < nat (i - 1) \<longrightarrow> \<bar>w\<bar> < \<bar>v\<bar>)"
      if jw: "j < length samples \<and> samples ! j = Some w" for j w
    proof -
      have "1 \<le> int j + 1 \<and> int j + 1 \<le> n \<and> value_cols r (int j + 1) = Some (Some w)"
        using jw assms(2) by (simp add: vc)
      with iv(5) have "\<bar>w\<bar> \<le> \<bar>v\<bar> \<and> (int j + 1 < i \<longrightarrow> \<bar>w\<bar> < \<bar>v\<bar>)" by blast
      moreover have "j < nat (i - 1) \<longrightarrow> int j + 1 < i" by auto
      ultimately show ?thesis by blast
    qed
    have "\<forall>j w. j < length samples \<and> samples ! j = Some w \<longrightarrow>
            \<bar>w\<bar> \<le> \<bar>v\<bar> \<and> (j < nat (i - 1) \<longrightarrow> \<bar>w\<bar> < \<bar>v\<bar>)"
      using dom by (intro allI impI)
    with idx si iv(1) show ?thesis by (intro exI [of _ "nat (i - 1)"] exI [of _ v] conjI)
  qed
  have nonpos: "get_max_value r (Some m) = Inr None" if "m \<le> 0"
    using that by (simp add: get_max_value_def)
  have event: "event_value r event_col = Inr None"
    if h: "fr = Some n \<and> time_to_frame (num_col r event_col) ts te n = Inr (Some f) \<and>
           int (length samples) < f"
  proof -
    have fc: "frames_col r = FramesInt n" using h by (simp add: assms(1) mk_row_def)
    have st: "num_col r ''time_start'' = ts" "num_col r ''time_end'' = te"
      by (simp_all add: assms(1) mk_row_def)
    from h have tf: "time_to_frame (num_col r event_col) ts te n = Inr (Some f)" by blast
    then have pres: "num_col r event_col \<noteq> None" "ts \<noteq> None" "te \<noteq> None" "n \<noteq> 0"
      by (auto simp: time_to_frame_def split: option.splits if_splits)
    from h have "get_value_at_frame r (Some f) = Inr None" using beyond by blast
    then show ?thesis
      using pres by (simp add: event_value_def Let_def fc st truthy_def tf)
  qed
  from beyond [of k] none some nonpos event show ?thesis by (intro conjI impI)
qed

theorem short_row_witness:
  "int (length [Some 1, Some (- 7), Some (3::rat)]) < 5 \<and>
   (\<exists>j<length [Some 1, Some (- 7), Some (3::rat)]. [Some 1, Some (- 7), Some (3::rat)] ! j \<noteq> None) \<and>
   (- 2 :: int) \<le> 0 \<and>
   time_to_frame
     (num_col (mk_row (Some 0) (Some 1) (Some 5) [(''event_release_time'', 2)]
                 [Some 1, Some (- 7), Some 3]) ''event_release_time'')
     (Some 0) (Some 1) 5 = Inr (Some 5) \<and>
   get_value_at_frame
     (mk_row (Some 0) (Some 1) (Some 5) [(''event_release_time'', 2)]
        [Some 1, Some (- 7), Some 3]) (Some 5) = Inr None \<and>
   get_max_value
     (mk_row (Some 0) (Some 1) (Some 5) [(''event_release_time'', 2)]
        [Some 1, Some (- 7), Some 3]) (Some 5) = Inr (Some (- 7)) \<and>
   get_max_value
     (mk_row (Some 0) (Some 1) (Some 5) [(''event_release_time'', 2)]
        [Some 1, Some (- 7), Some 3]) (Some (- 2)) = Inr None \<and>
   event_value
     (mk_row (Some 0) (Some 1) (Some 5) [(''event_release_time'', 2)]
        [Some 1, Some (- 7), Some 3]) ''event_release_time'' = Inr None"
proof -
  define S :: "rat option list" where "S = [Some 1, Some (- 7), Some 3]"
  define R where "R = mk_row (Some 0) (Some 1) (Some 5) [(''event_release_time'', 2)] S"
  have h1: "int (length S) < 5" by (simp add: S_def)
  have h2: "\<exists>j<length S. S ! j \<noteq> None"
  proof (intro exI conjI)
    show "0 < length S" by (simp add: S_def)
    show "S ! 0 \<noteq> None" by (simp add: S_def)
  qed
  have h3: "(- 2 :: int) \<le> 0" by simp
  have h4: "time_to_frame (num_col R ''event_release_time'') (Some 0) (Some 1) 5 = Inr (Some 5)"
    by (simp add: R_def mk_row_def time_to_frame_def)
  note A = short_row [where r = R and ts = "Some 0" and te = "Some 1" and fr = "Some 5"
      and evs = "[(''event_release_time'', 2)]" and samples = S and n = 5 and k = 5
      and m = "- 2" and event_col = "''event_release_time''" and f = 5, OF R_def h1]
  have c1: "get_value_at_frame R (Some 5) = Inr None" using A h1 by blast
  from A h2 obtain i v where iv: "i < length S" "S ! i = Some v"
    "get_max_value R (Some 5) = Inr (Some v)"
    "\<forall>j w. j < length S \<and> S ! j = Some w \<longrightarrow> \<bar>w\<bar> \<le> \<bar>v\<bar> \<and> (j < i \<longrightarrow> \<bar>w\<bar> < \<bar>v\<bar>)"
    by blast
  have "1 < length S \<and> S ! 1 = Some (- 7)" by (simp add: S_def)
  with iv(4) have big: "\<bar>- 7 :: rat\<bar> \<le> \<bar>v\<bar>" by blast
  have "i = 0 \<or> i = 1 \<or> i = 2" using iv(1) by (auto simp: S_def)
  then have "v = 1 \<or> v = - 7 \<or> v = 3" using iv(2) by (auto simp: S_def)
  with big have "v = - 7" by auto
  with iv(3) have c2: "get_max_value R (Some 5) = Inr (Some (- 7))" by simp
  have c3: "get_max_value R (Some (- 2)) = Inr None" using A h3 by blast
  have c4: "event_value R ''event_release_time'' = Inr None" using A h1 h4 by blast
  from h1 h2 h3 h4 c1 c2 c3 c4 show ?thesis unfolding R_def S_def by (intro conjI)
qed

section \<open>Clamping and the value at an event\<close>

text \<open>
  C5, as stated, fails: the window from 10 to 0 is not degenerate, and the event time 5 is
  after its end, yet the result with 3 frames is frame 1, not frame 3, because the test for
  an event before the start comes first.
\<close>

theorem clamp_counterexample:
  "(0::rat) \<noteq> 10 \<and> (0::rat) < 5 \<and> (1::int) < 3 \<and>
   time_to_frame (Some 5) (Some 10) (Some 0) 3 = Inr (Some 1) \<and>
   time_to_frame (Some 5) (Some 10) (Some 0) 3 \<noteq> Inr (Some 3)"
  by (simp add: time_to_frame_def)

text \<open>
  C5, amended: on a window whose start differs from its end, with nothing missing and more
  than one frame, an event time before the start gives frame 1, and an event time after the
  end that is not before the start (every event time after the end, when the start is not
  after the end) gives the last frame; the row with samples 10, 20, 30, window 0 to 1 and 3
  frames yields the value 10 for an event whose time is below 0.
\<close>

theorem clamp_outside_window:
  assumes "1 < frames" and "s \<noteq> e"
  shows "(t < s \<longrightarrow> time_to_frame (Some t) (Some s) (Some e) frames = Inr (Some 1)) \<and>
         (e < t \<and> s \<le> t \<longrightarrow> time_to_frame (Some t) (Some s) (Some e) frames = Inr (Some frames)) \<and>
         (t0 < 0 \<longrightarrow>
            (\<exists>out. extract_event_samples
                     (mk_row (Some 0) (Some 1) (Some 3) [(''event_release_time'', t0)]
                        [Some 10, Some 20, Some 30])
                     [(''release'', ''event_release_time'')] = Inr out \<and>
                   out ''@release'' = Some (Some 10)))"
proof -
  have low: "time_to_frame (Some t) (Some s) (Some e) frames = Inr (Some 1)" if "t < s"
    using that assms(1) by (simp add: time_to_frame_def)
  have high: "time_to_frame (Some t) (Some s) (Some e) frames = Inr (Some frames)"
    if "e < t \<and> s \<le> t"
    using that assms(1) by (simp add: time_to_frame_def)
  have ex: "\<exists>out. extract_event_samples
                     (mk_row (Some 0) (Some 1) (Some 3) [(''event_release_time'', t0)]
                        [Some 10, Some 20, Some 30])
                     [(''release'', ''event_release_time'')] = Inr out \<and>
                   out ''@release'' = Some (Some 10)" if t0: "t0 < 0"
  proof -
    let ?r = "mk_row (Some 0) (Some 1) (Some 3) [(''event_release_time'', t0)]
                [Some 10, Some 20, Some 30]"
    have tf: "time_to_frame (Some t0) (Some 0) (Some 1) 3 = Inr (Some 1)"
      using t0 by (simp add: time_to_frame_def)
    have gv: "get_value_at_frame ?r (Some 1) = Inr (Some 10)"
      by (simp add: get_value_at_frame_def in_index_def row_getitem_def mk_row_def)
    have ev: "event_value ?r ''event_release_time'' = Inr (Some 10)"
      using gv by (simp add: event_value_def Let_def mk_row_def truthy_def tf)
    obtain mv where mv: "get_max_value ?r (Some 3) = Inr mv"
      using get_max_value_returns by blast
    have fr: "frames_col ?r = FramesInt 3" by (simp add: mk_row_def)
    show ?thesis
      by (simp add: extract_event_samples_def ev truthy_def fr get_max_value_cell_def mv)
  qed
  from low high ex show ?thesis by blast
qed

theorem clamp_outside_window_witness:
  "(1::int) < 3 \<and> (0::rat) \<noteq> 1 \<and> (- 1 :: rat) < 0 \<and> (1::rat) < 2 \<and> (0::rat) \<le> 2 \<and>
   time_to_frame (Some (- 1)) (Some 0) (Some 1) 3 = Inr (Some 1) \<and>
   time_to_frame (Some 2) (Some 0) (Some 1) 3 = Inr (Some 3) \<and>
   (\<exists>out. extract_event_samples
            (mk_row (Some 0) (Some 1) (Some 3) [(''event_release_time'', - 1)]
               [Some 10, Some 20, Some 30])
            [(''release'', ''event_release_time'')] = Inr out \<and>
          out ''@release'' = Some (Some 10))"
  using clamp_outside_window [of 3 0 1 "- 1" "- 1"] clamp_outside_window [of 3 0 1 2 "- 1"]
  by simp

end
